theory Spec2Isabelle
  imports Complex_Main
begin

section \<open>Numbers of the program\<close>

text \<open>
  The simulator is TypeScript: every \<open>number\<close> is an IEEE-754 binary64 value.
  Levels, counters and currency amounts are integers far below \<open>2 ^ 53\<close>, where binary64
  arithmetic is exact, so they are modelled by \<open>int\<close> and \<open>nat\<close>. Rates and probabilities
  are fractions: a binary64 value is modelled by the rational number it denotes, and every
  decimal literal, product and quotient is rounded to the nearest binary64 value (ties to
  even) by \<open>fl\<close>. The rounding covers the normal and the subnormal range; the program
  computes no value near the overflow threshold (its fractions lie in \<open>[0, 1]\<close>).
\<close>

text \<open>Number of binary digits of a positive integer.\<close>

function bitlen :: "int \<Rightarrow> nat" where
  "bitlen n = (if n \<le> 0 then 0 else Suc (bitlen (n div 2)))"
  by pat_completeness auto
termination
  by (relation "measure nat") auto

declare bitlen.simps [simp del]

definition pow2 :: "int \<Rightarrow> rat" where
  "pow2 e = (if 0 \<le> e then 2 ^ nat e else 1 / 2 ^ nat (- e))"

text \<open>The binary exponent of a positive rational: \<open>pow2 (ilog2 x) \<le> x < pow2 (ilog2 x + 1)\<close>.\<close>

definition ilog2 :: "rat \<Rightarrow> int" where
  "ilog2 x = (let (p, q) = quotient_of x;
                  e = int (bitlen p) - int (bitlen q)
              in if pow2 e \<le> x then e else e - 1)"

definition roundTiesToEven :: "rat \<Rightarrow> int" where
  "roundTiesToEven q = (let f = \<lfloor>q\<rfloor>; d = q - of_int f
     in if d < 1 / 2 then f else if 1 / 2 < d then f + 1 else if even f then f else f + 1)"

text \<open>
  Rounding to binary64: a 53-bit significand, the exponent of the last place never below
  \<open>- 1074\<close> (subnormal numbers).
\<close>

definition fl :: "rat \<Rightarrow> rat" where
  "fl x = (if x = 0 then 0 else
     let a = \<bar>x\<bar>; e = max (ilog2 a - 52) (- 1074)
     in sgn x * of_int (roundTiesToEven (a / pow2 e)) * pow2 e)"

text \<open>The operators \<open>*\<close>, \<open>/\<close> and \<open>+\<close> of the program on two binary64 values.\<close>

definition fmul :: "rat \<Rightarrow> rat \<Rightarrow> rat" where
  "fmul a b = fl (a * b)"

definition fadd :: "rat \<Rightarrow> rat \<Rightarrow> rat" where
  "fadd a b = fl (a + b)"

definition fdiv :: "rat \<Rightarrow> rat \<Rightarrow> rat" where
  "fdiv a b = fl (a / b)"

section \<open>Data model\<close>

text \<open>
  The three interfaces of \<open>page.tsx\<close>. The fields \<open>successRate\<close> of the statistics record
  are suffixed, since the rule record has a field of that name.
\<close>

record EnhancementRules =
  successRate :: rat
  damageRate :: rat
  failurePenalty :: int

record EnhancementResult =
  success :: bool
  newLevel :: int
  damageOccurred :: bool
  goldSpent :: int

record EnhancementStats =
  totalAttempts :: nat
  totalGoldSpent :: int
  successRate_stats :: rat
  jellyCost :: int
  essenceCost :: int
  diamondCost :: int
  finalLevel :: int

text \<open>
  The interfaces of the second page component (no secondary currencies), which declares
  its own. Its statistics add up the \<open>goldSpent\<close> that the entries record, whatever number
  that is, with the operator \<open>+\<close> of the program: there the field and the total are
  binary64 values. (In the first component no arithmetic reads the field.)
\<close>

record EnhancementResult_simple =
  success_simple :: bool
  newLevel_simple :: int
  damageOccurred_simple :: bool
  goldSpent_simple :: rat

record EnhancementStats_simple =
  totalAttempts_simple :: nat
  totalGoldSpent_simple :: rat
  successRate_simple :: rat
  damageRate_simple :: rat
  finalLevel_simple :: int

text \<open>\<open>throw new Error(`Invalid enhancement level: ${level}`)\<close>\<close>

datatype error = InvalidLevel int

section \<open>Rule table\<close>

text \<open>\<open>ENHANCEMENT_RULES\<close> of the first page component (the one with tiered currencies).\<close>

definition ENHANCEMENT_RULES :: "int \<rightharpoonup> EnhancementRules" where
  "ENHANCEMENT_RULES = map_of
    [(1, \<lparr>successRate = fl 1.00, damageRate = fl 0.00, failurePenalty = 0\<rparr>),
     (2, \<lparr>successRate = fl 1.00, damageRate = fl 0.00, failurePenalty = 0\<rparr>),
     (3, \<lparr>successRate = fl 1.00, damageRate = fl 0.00, failurePenalty = 0\<rparr>),
     (4, \<lparr>successRate = fl 1.00, damageRate = fl 0.00, failurePenalty = 0\<rparr>),
     (5, \<lparr>successRate = fl 1.00, damageRate = fl 0.00, failurePenalty = 0\<rparr>),
     (6, \<lparr>successRate = fl 1.00, damageRate = fl 0.00, failurePenalty = 0\<rparr>),
     (7, \<lparr>successRate = fl 0.45, damageRate = fl 0.25, failurePenalty = - 1\<rparr>),
     (8, \<lparr>successRate = fl 0.40, damageRate = fl 0.25, failurePenalty = - 2\<rparr>),
     (9, \<lparr>successRate = fl 0.35, damageRate = fl 0.25, failurePenalty = 0\<rparr>),
     (10, \<lparr>successRate = fl 0.30, damageRate = fl 0.25, failurePenalty = - 1\<rparr>),
     (11, \<lparr>successRate = fl 0.25, damageRate = fl 0.25, failurePenalty = - 2\<rparr>),
     (12, \<lparr>successRate = fl 0.20, damageRate = fl 0.25, failurePenalty = - 2\<rparr>),
     (13, \<lparr>successRate = fl 0.15, damageRate = fl 0.25, failurePenalty = - 2\<rparr>),
     (14, \<lparr>successRate = fl 0.05, damageRate = fl 0.25, failurePenalty = - 2\<rparr>),
     (15, \<lparr>successRate = fl 0.01, damageRate = fl 0.25, failurePenalty = - 2\<rparr>)]"

definition ENHANCE_COST :: int where
  "ENHANCE_COST = 5"

text \<open>The table and the cost of the second page component.\<close>

definition ENHANCEMENT_RULES_simple :: "int \<rightharpoonup> EnhancementRules" where
  "ENHANCEMENT_RULES_simple = map_of
    [(1, \<lparr>successRate = fl 1.00, damageRate = fl 0.00, failurePenalty = 0\<rparr>),
     (2, \<lparr>successRate = fl 1.00, damageRate = fl 0.00, failurePenalty = 0\<rparr>),
     (3, \<lparr>successRate = fl 1.00, damageRate = fl 0.00, failurePenalty = 0\<rparr>),
     (4, \<lparr>successRate = fl 1.00, damageRate = fl 0.00, failurePenalty = 0\<rparr>),
     (5, \<lparr>successRate = fl 1.00, damageRate = fl 0.00, failurePenalty = 0\<rparr>),
     (6, \<lparr>successRate = fl 1.00, damageRate = fl 0.00, failurePenalty = 0\<rparr>),
     (7, \<lparr>successRate = fl 0.45, damageRate = fl 0.25, failurePenalty = - 1\<rparr>),
     (8, \<lparr>successRate = fl 0.40, damageRate = fl 0.25, failurePenalty = - 2\<rparr>),
     (9, \<lparr>successRate = fl 0.35, damageRate = fl 0.25, failurePenalty = 0\<rparr>),
     (10, \<lparr>successRate = fl 0.30, damageRate = fl 0.25, failurePenalty = - 1\<rparr>),
     (11, \<lparr>successRate = fl 0.25, damageRate = fl 0.25, failurePenalty = - 2\<rparr>),
     (12, \<lparr>successRate = fl 0.20, damageRate = fl 0.25, failurePenalty = - 2\<rparr>),
     (13, \<lparr>successRate = fl 0.15, damageRate = fl 0.25, failurePenalty = - 2\<rparr>),
     (14, \<lparr>successRate = fl 0.05, damageRate = fl 0.25, failurePenalty = - 2\<rparr>),
     (15, \<lparr>successRate = fl 0.01, damageRate = fl 0.25, failurePenalty = - 2\<rparr>)]"

definition ENHANCE_COST_simple :: int where
  "ENHANCE_COST_simple = 75"

section \<open>Probability of reaching the target\<close>

text \<open>
  The \<open>for\<close> loop of \<open>calculateReachTargetChance\<close>: \<open>lvl\<close> runs from \<open>current\<close> while
  \<open>lvl < target\<close>; a level without a rule returns 0 from inside the loop.
\<close>

function reachLoop :: "int \<Rightarrow> int \<Rightarrow> rat \<Rightarrow> rat" where
  "reachLoop lvl target chance =
     (if lvl < target then
        (case ENHANCEMENT_RULES lvl of
           None \<Rightarrow> 0
         | Some rules \<Rightarrow> reachLoop (lvl + 1) target (fmul chance (successRate rules)))
      else chance)"
  by pat_completeness auto
termination
  by (relation "measure (\<lambda>(lvl, target, chance). nat (target - lvl))") auto

declare reachLoop.simps [simp del]

definition calculateReachTargetChance :: "int \<Rightarrow> int \<Rightarrow> rat" where
  "calculateReachTargetChance current target =
     (if target \<le> current then 1 else reachLoop current target 1)"

function reachLoop_simple :: "int \<Rightarrow> int \<Rightarrow> rat \<Rightarrow> rat" where
  "reachLoop_simple lvl target chance =
     (if lvl < target then
        (case ENHANCEMENT_RULES_simple lvl of
           None \<Rightarrow> 0
         | Some rules \<Rightarrow> reachLoop_simple (lvl + 1) target (fmul chance (successRate rules)))
      else chance)"
  by pat_completeness auto
termination
  by (relation "measure (\<lambda>(lvl, target, chance). nat (target - lvl))") auto

declare reachLoop_simple.simps [simp del]

definition calculateReachTargetChance_simple :: "int \<Rightarrow> int \<Rightarrow> rat" where
  "calculateReachTargetChance_simple current target =
     (if target \<le> current then 1 else reachLoop_simple current target 1)"

section \<open>Resolving one attempt\<close>

text \<open>
  \<open>Math.random()\<close> is modelled by the sequence \<open>rnd\<close> of the values it returns and
  the position \<open>k\<close> of the next one; \<open>enhance\<close> calls it twice, first for the success,
  then for the damage, and returns the advanced position with its result. The exception is
  the value \<open>Inl (InvalidLevel level)\<close>.
\<close>

definition enhance :: "(nat \<Rightarrow> rat) \<Rightarrow> nat \<Rightarrow> int \<Rightarrow> error + (EnhancementResult \<times> nat)" where
  "enhance rnd k level =
     (case ENHANCEMENT_RULES level of
        None \<Rightarrow> Inl (InvalidLevel level)
      | Some rules \<Rightarrow>
          (let success' = rnd k < successRate rules;
               damageOccurred' = rnd (k + 1) < damageRate rules;
               newLevel' = (if success' then level + 1
                            else max 1 (level + failurePenalty rules))
           in Inr (\<lparr>success = success', newLevel = newLevel',
                     damageOccurred = damageOccurred', goldSpent = ENHANCE_COST\<rparr>, k + 2)))"

text \<open>\<open>enhance\<close> of the second page component: the same body over its own table and cost.\<close>

definition enhance_simple ::
  "(nat \<Rightarrow> rat) \<Rightarrow> nat \<Rightarrow> int \<Rightarrow> error + (EnhancementResult_simple \<times> nat)" where
  "enhance_simple rnd k level =
     (case ENHANCEMENT_RULES_simple level of
        None \<Rightarrow> Inl (InvalidLevel level)
      | Some rules \<Rightarrow>
          (let success' = rnd k < successRate rules;
               damageOccurred' = rnd (k + 1) < damageRate rules;
               newLevel' = (if success' then level + 1
                            else max 1 (level + failurePenalty rules))
           in Inr (\<lparr>success_simple = success', newLevel_simple = newLevel',
                     damageOccurred_simple = damageOccurred',
                     goldSpent_simple = of_int ENHANCE_COST_simple\<rparr>, k + 2)))"

section \<open>Statistics\<close>

text \<open>The three nested conditionals inside \<open>calculateStats\<close>, on \<open>attempt.newLevel\<close>.\<close>

definition jellyPerAttempt :: "int \<Rightarrow> int" where
  "jellyPerAttempt level =
     (if level \<le> 3 then 18 else if level \<le> 6 then 18 else if level \<le> 10 then 18
      else if level \<le> 13 then 18 else if level \<le> 14 then 18 else 24)"

definition essencePerAttempt :: "int \<Rightarrow> int" where
  "essencePerAttempt level =
     (if level \<le> 3 then 1 else if level \<le> 6 then 2 else if level \<le> 10 then 3
      else if level \<le> 13 then 4 else if level \<le> 14 then 5 else 6)"

definition diamondPerAttempt :: "int \<Rightarrow> int" where
  "diamondPerAttempt level =
     (if level \<le> 3 then 1 else if level \<le> 6 then 2 else if level \<le> 10 then 2
      else if level \<le> 13 then 3 else if level \<le> 14 then 4 else 6)"

text \<open>
  \<open>calculateStats\<close> of the first page component. \<open>reduce\<close> with an initial value is a
  left fold; the gold total adds the constant \<open>ENHANCE_COST\<close> for each entry and does not
  read the entry. The last element is read only in the branch where the list is not empty.
\<close>

definition calculateStats :: "EnhancementResult list \<Rightarrow> EnhancementStats" where
  "calculateStats attempts =
     (if length attempts = 0 then
        \<lparr>totalAttempts = 0, totalGoldSpent = 0, successRate_stats = 0, jellyCost = 0,
         essenceCost = 0, diamondCost = 0, finalLevel = 1\<rparr>
      else
        (let totalAttempts' = length attempts;
             successfulAttempts = length (filter (\<lambda>attempt. success attempt) attempts);
             totalGoldSpent' = foldl (\<lambda>sum attempt. sum + ENHANCE_COST) 0 attempts;
             jellyCost' =
               foldl (\<lambda>sum attempt. sum + jellyPerAttempt (newLevel attempt)) 0 attempts;
             essenceCost' =
               foldl (\<lambda>sum attempt. sum + essencePerAttempt (newLevel attempt)) 0 attempts;
             diamondCost' =
               foldl (\<lambda>sum attempt. sum + diamondPerAttempt (newLevel attempt)) 0 attempts
         in \<lparr>totalAttempts = totalAttempts', totalGoldSpent = totalGoldSpent',
             successRate_stats = fdiv (of_nat successfulAttempts) (of_nat totalAttempts'),
             jellyCost = jellyCost', essenceCost = essenceCost', diamondCost = diamondCost',
             finalLevel = newLevel (attempts ! (length attempts - 1))\<rparr>))"

text \<open>
  \<open>calculateStats\<close> of the second page component: the gold total adds each entry's
  recorded \<open>goldSpent\<close> to the running sum, from 0, with the operator \<open>+\<close> of the program.
\<close>

definition calculateStats_simple :: "EnhancementResult_simple list \<Rightarrow> EnhancementStats_simple" where
  "calculateStats_simple attempts =
     (if length attempts = 0 then
        \<lparr>totalAttempts_simple = 0, totalGoldSpent_simple = 0, successRate_simple = 0,
         damageRate_simple = 0, finalLevel_simple = 1\<rparr>
      else
        (let totalAttempts' = length attempts;
             successfulAttempts =
               length (filter (\<lambda>attempt. success_simple attempt) attempts);
             damageOccurred' =
               length (filter (\<lambda>attempt. damageOccurred_simple attempt) attempts);
             totalGoldSpent' =
               foldl (\<lambda>sum attempt. fadd sum (goldSpent_simple attempt)) 0 attempts
         in \<lparr>totalAttempts_simple = totalAttempts', totalGoldSpent_simple = totalGoldSpent',
             successRate_simple = fdiv (of_nat successfulAttempts) (of_nat totalAttempts'),
             damageRate_simple = fdiv (of_nat damageOccurred') (of_nat totalAttempts'),
             finalLevel_simple = newLevel_simple (attempts ! (length attempts - 1))\<rparr>))"

section \<open>Batch of attempts\<close>

text \<open>
  The \<open>for\<close> loop of \<open>handleSetTotalAttempts\<close>: \<open>i\<close> counts up to \<open>totalAttemptsInput\<close>
  (the argument \<open>totalInput\<close>), the \<open>break\<close> is tested before each call of \<open>enhance\<close>,
  and an exception of \<open>enhance\<close> leaves the loop. The result is the list \<open>newAttempts\<close>,
  the level \<open>tempLevel\<close> and the draw position.
\<close>

function batchLoop ::
  "(nat \<Rightarrow> rat) \<Rightarrow> nat \<Rightarrow> nat \<Rightarrow> nat \<Rightarrow> int \<Rightarrow> int \<Rightarrow> EnhancementResult list
     \<Rightarrow> error + (EnhancementResult list \<times> int \<times> nat)" where
  "batchLoop rnd k i totalInput target tempLevel newAttempts =
     (if i < totalInput then
        (if target \<le> tempLevel \<or> 15 \<le> tempLevel then Inr (newAttempts, tempLevel, k)
         else
           (case enhance rnd k tempLevel of
              Inl e \<Rightarrow> Inl e
            | Inr (result, k') \<Rightarrow>
                batchLoop rnd k' (i + 1) totalInput target (newLevel result)
                  (newAttempts @ [result])))
      else Inr (newAttempts, tempLevel, k))"
  by pat_completeness auto
termination
  by (relation "measure (\<lambda>(rnd, k, i, totalInput, target, tempLevel, newAttempts). totalInput - i)")
    auto

declare batchLoop.simps [simp del]

text \<open>
  The state of the page component that \<open>handleSetTotalAttempts\<close> reads and writes.
  \<open>currentLevelRef.current\<close> mirrors \<open>currentLevel\<close>; the state variable \<open>attempts\<close> is
  the field \<open>attemptLog\<close>; \<open>totalAttemptsInput\<close> is set only through
  \<open>Math.max(1, parseInt(...) || 1)\<close>, a natural number. The function returns the new
  state and the advanced draw position, or the exception of \<open>enhance\<close>.
\<close>

record Session =
  currentLevel :: int
  attemptLog :: "EnhancementResult list"
  targetLevel :: int
  isAutoEnhancing :: bool
  stats :: EnhancementStats
  totalAttemptsInput :: nat

definition handleSetTotalAttempts :: "(nat \<Rightarrow> rat) \<Rightarrow> nat \<Rightarrow> Session \<Rightarrow> error + (Session \<times> nat)" where
  "handleSetTotalAttempts rnd k s =
     (if isAutoEnhancing s then Inr (s, k)
      else
        (case batchLoop rnd k 0 (totalAttemptsInput s) (targetLevel s) (currentLevel s)
                (attemptLog s) of
           Inl e \<Rightarrow> Inl e
         | Inr (newAttempts, tempLevel, k') \<Rightarrow>
             Inr (s\<lparr>attemptLog := newAttempts, stats := calculateStats newAttempts,
                     currentLevel := tempLevel\<rparr>, k')))"

section \<open>Notions used in the statements\<close>

text \<open>The success rate the table gives for a level that has a rule.\<close>

definition rateOf :: "int \<Rightarrow> rat" where
  "rateOf l = successRate (the (ENHANCEMENT_RULES l))"

text \<open>A sequence of draws in which \<open>Math.random()\<close> always returns 0, a value of \<open>[0, 1)\<close>.\<close>

definition zeroDraws :: "nat \<Rightarrow> rat" where
  "zeroDraws n = 0"

text \<open>
  The cost table of the specification, one row per range of \<open>newLevel\<close>, as the triple
  (jelly, essence, diamond). The last row, written for level 15, is the remaining case.
\<close>

definition tierTable :: "int \<Rightarrow> int \<times> int \<times> int" where
  "tierTable level =
     (if level \<le> 3 then (18, 1, 1)
      else if 4 \<le> level \<and> level \<le> 6 then (18, 2, 2)
      else if 7 \<le> level \<and> level \<le> 10 then (18, 3, 2)
      else if 11 \<le> level \<and> level \<le> 13 then (18, 4, 3)
      else if level = 14 then (18, 5, 4)
      else (24, 6, 6))"

text \<open>
  The running level of a batch after the outcomes \<open>outs\<close>: the level of the last outcome,
  the start level when there is none.
\<close>

definition runningLevel :: "int \<Rightarrow> EnhancementResult list \<Rightarrow> int" where
  "runningLevel start outs = (if outs = [] then start else newLevel (last outs))"

text \<open>
  \<open>outs\<close> is a run of the resolver from level \<open>lvl\<close> and draw position \<open>k\<close> in which every
  attempt is resolved at a running level below the target and below 15: each outcome is
  what \<open>enhance\<close> returns at the level the previous outcome left.
\<close>

fun resolvedBelow :: "(nat \<Rightarrow> rat) \<Rightarrow> nat \<Rightarrow> int \<Rightarrow> int \<Rightarrow> EnhancementResult list \<Rightarrow> bool" where
  "resolvedBelow rnd k target lvl [] = True"
| "resolvedBelow rnd k target lvl (out # outs) =
     (lvl < target \<and> lvl < 15 \<and> enhance rnd k lvl = Inr (out, k + 2)
      \<and> resolvedBelow rnd (k + 2) target (newLevel out) outs)"

text \<open>A session before any attempt, asked for a batch of three attempts up to level 9.\<close>

definition session0 :: Session where
  "session0 =
     \<lparr>currentLevel = 1, attemptLog = [], targetLevel = 9, isAutoEnhancing = False,
      stats = calculateStats [], totalAttemptsInput = 3\<rparr>"

text \<open>A sequence of draws in which \<open>Math.random()\<close> always returns one half.\<close>

definition halfDraws :: "nat \<Rightarrow> rat" where
  "halfDraws n = 1 / 2"

text \<open>A log entry whose recorded cost is neither of the two constants.\<close>

definition entry7 :: EnhancementResult where
  "entry7 = \<lparr>success = True, newLevel = 2, damageOccurred = False, goldSpent = 7\<rparr>"


text \<open>A log of the second page component whose recorded costs are \<open>2 ^ 53\<close> and 1.\<close>

definition largeLog :: "EnhancementResult_simple list" where
  "largeLog =
     [\<lparr>success_simple = True, newLevel_simple = 2, damageOccurred_simple = False,
       goldSpent_simple = 2 ^ 53\<rparr>,
      \<lparr>success_simple = True, newLevel_simple = 3, damageOccurred_simple = False,
       goldSpent_simple = 1\<rparr>]"


section \<open>The rounding is to the nearest value\<close>

text \<open>
  \<open>ilog2\<close> is the binary exponent, and \<open>fl x\<close> is a multiple of the unit in the last
  place with a significand of at most 53 bits, at most half a unit away from \<open>x\<close>.
\<close>

lemma bitlen_bounds:
  assumes "0 < n"
  shows "2 ^ (bitlen n - 1) \<le> n \<and> n < 2 ^ bitlen n"
  using assms
proof (induction n rule: bitlen.induct)
  case (1 n)
  show ?case
  proof (cases "n = 1")
    case True
    then show ?thesis by (simp add: bitlen.simps [of 1] bitlen.simps [of 0])
  next
    case False
    with "1.prems" have pos: "0 < n div 2" by simp
    from "1.prems" have np: "\<not> n \<le> 0" by simp
    from "1.IH" [OF np pos] have
      lo: "2 ^ (bitlen (n div 2) - 1) \<le> n div 2" and hi: "n div 2 < 2 ^ bitlen (n div 2)"
      by auto
    have bl: "bitlen n = Suc (bitlen (n div 2))"
      using np by (simp add: bitlen.simps [of n])
    have b1: "0 < bitlen (n div 2)"
      using pos by (simp add: bitlen.simps [of "n div 2"])
    then have "(2::int) ^ (bitlen n - 1) = 2 * 2 ^ (bitlen (n div 2) - 1)"
      using bl by (cases "bitlen (n div 2)") simp_all
    with lo have "2 ^ (bitlen n - 1) \<le> 2 * (n div 2)" by simp
    also have "\<dots> \<le> n" by simp
    finally have A: "2 ^ (bitlen n - 1) \<le> n" .
    from hi have "n div 2 + 1 \<le> 2 ^ bitlen (n div 2)" by simp
    then have "2 * (n div 2) + 2 \<le> 2 ^ bitlen n" using bl by simp
    moreover have "n \<le> 2 * (n div 2) + 1" by presburger
    ultimately have B: "n < 2 ^ bitlen n" by linarith
    from A B show ?thesis by simp
  qed
qed

lemma pow2_pos: "0 < pow2 e"
  by (simp add: pow2_def)

lemma pow2_diff: "pow2 (int a - int b) = 2 ^ a / 2 ^ b"
proof (cases "b \<le> a")
  case True
  then have "pow2 (int a - int b) = 2 ^ (a - b)"
    by (simp add: pow2_def nat_diff_distrib')
  then show ?thesis using True by (simp add: power_diff)
next
  case False
  then have "pow2 (int a - int b) = 1 / 2 ^ (b - a)"
    by (simp add: pow2_def nat_diff_distrib')
  moreover have "(2::rat) ^ b = 2 ^ (b - a) * 2 ^ a"
    using False by (simp flip: power_add)
  ultimately show ?thesis by simp
qed


lemma ilog2_bounds:
  assumes "0 < x"
  shows "pow2 (ilog2 x) \<le> x \<and> x < pow2 (ilog2 x + 1)"
proof -
  obtain p q where pq: "quotient_of x = (p, q)" by (cases "quotient_of x")
  then have q: "0 < q" and x: "x = of_int p / of_int q"
    by (simp_all add: quotient_of_denom_pos quotient_of_div)
  with assms have p: "0 < p"
    by (simp add: zero_less_divide_iff)
  define bp bq where "bp = bitlen p" and "bq = bitlen q"
  from bitlen_bounds [OF p] have plo: "2 ^ (bp - 1) \<le> p" and phi: "p < 2 ^ bp"
    by (simp_all add: bp_def)
  from bitlen_bounds [OF q] have qlo: "2 ^ (bq - 1) \<le> q" and qhi: "q < 2 ^ bq"
    by (simp_all add: bq_def)
  have bp1: "0 < bp" using p by (simp add: bp_def bitlen.simps [of p])
  have bq1: "0 < bq" using q by (simp add: bq_def bitlen.simps [of q])
  have rp: "(of_int p :: rat) < 2 ^ bp" "(2::rat) ^ (bp - 1) \<le> of_int p"
    using phi plo by (metis of_int_less_iff of_int_numeral of_int_power,
        metis of_int_le_iff of_int_numeral of_int_power)
  have rq: "(of_int q :: rat) < 2 ^ bq" "(2::rat) ^ (bq - 1) \<le> of_int q"
    using qhi qlo by (metis of_int_less_iff of_int_numeral of_int_power,
        metis of_int_le_iff of_int_numeral of_int_power)
  have rq0: "(0::rat) < of_int q" using q by simp
  have hp: "(2::rat) ^ bp = 2 * 2 ^ (bp - 1)" using bp1 by (cases bp) simp_all
  have hq: "(2::rat) ^ bq = 2 * 2 ^ (bq - 1)" using bq1 by (cases bq) simp_all
  have up: "x < pow2 (int bp - int bq + 1)"
  proof -
    have "int bp - int bq + 1 = int (Suc bp) - int bq" by simp
    then have "pow2 (int bp - int bq + 1) = pow2 (int (Suc bp) - int bq)" by (rule arg_cong)
    also have "\<dots> = 2 ^ Suc bp / 2 ^ bq" by (rule pow2_diff)
    also have "\<dots> = 2 ^ bp / 2 ^ (bq - 1)" by (simp add: hq)
    finally have e: "pow2 (int bp - int bq + 1) = 2 ^ bp / 2 ^ (bq - 1)" .
    have "x < 2 ^ bp / of_int q"
      unfolding x using rp(1) rq0 by (simp add: divide_strict_right_mono)
    also have "\<dots> \<le> 2 ^ bp / 2 ^ (bq - 1)"
      using rq(2) by (simp add: frac_le)
    finally show ?thesis by (simp add: e)
  qed
  have lo: "pow2 (int bp - int bq - 1) \<le> x"
  proof -
    have "int bp - int bq - 1 = int bp - int (Suc bq)" by simp
    then have "pow2 (int bp - int bq - 1) = pow2 (int bp - int (Suc bq))" by (rule arg_cong)
    also have "\<dots> = 2 ^ bp / 2 ^ Suc bq" by (rule pow2_diff)
    also have "\<dots> = 2 ^ (bp - 1) / 2 ^ bq" by (simp add: hp)
    finally have e: "pow2 (int bp - int bq - 1) = 2 ^ (bp - 1) / 2 ^ bq" .
    have "(2::rat) ^ (bp - 1) / 2 ^ bq \<le> 2 ^ (bp - 1) / of_int q"
      using rq(1) rq0 by (simp add: frac_le)
    also have "\<dots> \<le> x"
      unfolding x using rp(2) rq0 by (simp add: divide_right_mono)
    finally show ?thesis by (simp add: e)
  qed
  show ?thesis
  proof (cases "pow2 (int bp - int bq) \<le> x")
    case True
    then have "ilog2 x = int bp - int bq"
      by (simp add: ilog2_def pq bp_def bq_def)
    with True up show ?thesis by simp
  next
    case False
    then have "ilog2 x = int bp - int bq - 1"
      by (simp add: ilog2_def pq bp_def bq_def)
    with False lo show ?thesis by simp
  qed
qed

lemma roundTiesToEven_near: "\<bar>of_int (roundTiesToEven q) - q\<bar> \<le> 1 / 2"
proof -
  have "of_int \<lfloor>q\<rfloor> \<le> q" "q < of_int \<lfloor>q\<rfloor> + 1"
    by linarith+
  then show ?thesis
    unfolding roundTiesToEven_def Let_def
    by (auto simp: abs_if split: if_splits) linarith+
qed


lemma pow2_power_int: "pow2 e = power_int 2 e"
  by (simp add: pow2_def power_int_def power_one_over inverse_eq_divide)

lemma roundTiesToEven_range:
  assumes "0 \<le> q" "q < of_int N"
  shows "0 \<le> roundTiesToEven q \<and> roundTiesToEven q \<le> N"
proof -
  from assms have "0 \<le> \<lfloor>q\<rfloor>" "\<lfloor>q\<rfloor> < N"
    by (simp_all add: floor_less_iff)
  then show ?thesis
    by (auto simp: roundTiesToEven_def Let_def)
qed

lemma fl_nearest:
  assumes "x \<noteq> 0"
  shows "\<exists>m. fl x = of_int m * pow2 (max (ilog2 \<bar>x\<bar> - 52) (- 1074))
    \<and> \<bar>m\<bar> \<le> 2 ^ 53
    \<and> \<bar>fl x - x\<bar> \<le> pow2 (max (ilog2 \<bar>x\<bar> - 52) (- 1074)) / 2"
proof -
  define e where "e = max (ilog2 \<bar>x\<bar> - 52) (- 1074)"
  define m where "m = roundTiesToEven (\<bar>x\<bar> / pow2 e)"
  have pe: "0 < pow2 e" by (rule pow2_pos)
  have f: "fl x = sgn x * of_int m * pow2 e"
    using assms(1) by (simp add: fl_def Let_def m_def e_def)
  have "\<bar>x\<bar> < pow2 (ilog2 \<bar>x\<bar> + 1)"
    using ilog2_bounds [of "\<bar>x\<bar>"] assms(1) by simp
  also have "\<dots> \<le> pow2 (e + 53)"
    unfolding pow2_power_int by (rule power_int_increasing) (simp_all add: e_def)
  also have "\<dots> = pow2 e * 2 ^ 53"
    unfolding pow2_power_int by (simp add: power_int_add)
  finally have "\<bar>x\<bar> / pow2 e < of_int (2 ^ 53)"
    using pe by (simp add: pos_divide_less_eq mult.commute)
  moreover have "0 \<le> \<bar>x\<bar> / pow2 e"
    using pe by simp
  ultimately have r: "0 \<le> m" "m \<le> 2 ^ 53"
    using roundTiesToEven_range [of "\<bar>x\<bar> / pow2 e" "2 ^ 53"] by (simp_all add: m_def)
  have x: "x = sgn x * (\<bar>x\<bar> / pow2 e) * pow2 e"
    using pe by (simp add: sgn_if)
  have "fl x - x = sgn x * (of_int m - \<bar>x\<bar> / pow2 e) * pow2 e"
    by (subst x, subst f) (simp add: algebra_simps)
  then have "\<bar>fl x - x\<bar> = \<bar>of_int m - \<bar>x\<bar> / pow2 e\<bar> * pow2 e"
    using pe assms(1) by (simp add: abs_mult abs_sgn_eq)
  also have "\<dots> \<le> 1 / 2 * pow2 e"
    using roundTiesToEven_near [of "\<bar>x\<bar> / pow2 e"] pe
    by (intro mult_right_mono) (simp_all add: m_def)
  finally have d: "\<bar>fl x - x\<bar> \<le> pow2 e / 2" by simp
  have "fl x = of_int (if 0 < x then m else - m) * pow2 e"
    using f assms(1) by (simp add: sgn_if)
  moreover have "\<bar>if 0 < x then m else - m\<bar> \<le> 2 ^ 53"
    using r by simp
  ultimately show ?thesis using d unfolding e_def by blast
qed




section \<open>The rounding on known values\<close>

text \<open>
  The rounding agrees with binary64 on values whose representation is well known: one tenth,
  one third, the sum \<open>0.1 + 0.2\<close> that is not \<open>0.3\<close>, and the first integers that have no
  representation.
\<close>

lemma fl_one: "fl 1 = 1"
  by code_simp

lemma fl_zero: "fl 0 = 0"
  by code_simp

lemma fl_tenth: "fl 0.1 = 3602879701896397 / 2 ^ 55"
  by code_simp

lemma fl_third: "fl (1 / 3) = 6004799503160661 / 2 ^ 54"
  by code_simp

lemma fl_sum_tenths: "fl (fl 0.1 + fl 0.2) \<noteq> fl 0.3"
  by code_simp

lemma fl_large: "fl (2 ^ 53 + 1) = 2 ^ 53 \<and> fl (2 ^ 53 + 3) = 2 ^ 53 + 4"
  by code_simp

section \<open>The rule table\<close>

lemma level_cases:
  "(1 \<le> level \<and> level \<le> 15) =
     (level = 1 \<or> level = 2 \<or> level = 3 \<or> level = 4 \<or> level = 5 \<or> level = 6 \<or> level = 7
      \<or> level = 8 \<or> level = 9 \<or> level = 10 \<or> level = 11 \<or> level = 12 \<or> level = 13
      \<or> level = 14 \<or> level = (15::int))"
  by arith

lemma rules_defined_iff: "(ENHANCEMENT_RULES level = None) = (level < 1 \<or> 15 < level)"
proof -
  have "(ENHANCEMENT_RULES level = None) =
     (\<not> (level = 1 \<or> level = 2 \<or> level = 3 \<or> level = 4 \<or> level = 5 \<or> level = 6 \<or> level = 7
      \<or> level = 8 \<or> level = 9 \<or> level = 10 \<or> level = 11 \<or> level = 12 \<or> level = 13
      \<or> level = 14 \<or> level = 15))"
    unfolding ENHANCEMENT_RULES_def map_of_eq_None_iff by simp
  also have "\<dots> = (\<not> (1 \<le> level \<and> level \<le> 15))"
    by (simp only: level_cases)
  also have "\<dots> = (level < 1 \<or> 15 < level)"
    by auto
  finally show ?thesis .
qed

lemma rules_low:
  assumes "1 \<le> level" "level \<le> 6"
  shows "ENHANCEMENT_RULES level = Some \<lparr>successRate = 1, damageRate = 0, failurePenalty = 0\<rparr>"
proof -
  from assms have "level = 1 \<or> level = 2 \<or> level = 3 \<or> level = 4 \<or> level = 5 \<or> level = 6"
    by arith
  then show ?thesis
    by (elim disjE) (simp_all add: ENHANCEMENT_RULES_def fl_one fl_zero)
qed

lemma rules_penalty:
  assumes "ENHANCEMENT_RULES level = Some rules"
  shows "- 2 \<le> failurePenalty rules \<and> failurePenalty rules \<le> 0"
proof -
  from assms have "ENHANCEMENT_RULES level \<noteq> None" by simp
  then have "1 \<le> level \<and> level \<le> 15" using rules_defined_iff [of level] by auto
  then have "level = 1 \<or> level = 2 \<or> level = 3 \<or> level = 4 \<or> level = 5 \<or> level = 6
      \<or> level = 7 \<or> level = 8 \<or> level = 9 \<or> level = 10 \<or> level = 11 \<or> level = 12
      \<or> level = 13 \<or> level = 14 \<or> level = 15"
    by (simp only: level_cases)
  then show ?thesis
    using assms by (elim disjE) (auto simp: ENHANCEMENT_RULES_def)
qed

lemma rules_eq: "ENHANCEMENT_RULES_simple = ENHANCEMENT_RULES"
  by (simp add: ENHANCEMENT_RULES_simple_def ENHANCEMENT_RULES_def)

section \<open>The probability of reaching the target\<close>

lemma reachLoop_spec:
  "reachLoop lvl target chance =
     (if target \<le> lvl then chance
      else if \<forall>l\<in>set [lvl..target - 1]. ENHANCEMENT_RULES l \<noteq> None
           then foldl fmul chance (map rateOf [lvl..target - 1])
           else 0)"
proof (induction lvl target chance rule: reachLoop.induct)
  case (1 lvl target chance)
  show ?case
  proof (cases "lvl < target")
    case False
    then show ?thesis by (simp add: reachLoop.simps [of lvl])
  next
    case True
    then have up: "[lvl..target - 1] = lvl # [lvl + 1..target - 1]"
      by (simp add: upto_rec1)
    show ?thesis
    proof (cases "ENHANCEMENT_RULES lvl")
      case None
      with True up show ?thesis by (simp add: reachLoop.simps [of lvl])
    next
      case (Some rules)
      have "reachLoop lvl target chance
          = reachLoop (lvl + 1) target (fmul chance (successRate rules))"
        using True Some by (simp add: reachLoop.simps [of lvl])
      also note "1.IH" [OF True Some]
      finally show ?thesis using True Some up
        by (auto simp: rateOf_def)
    qed
  qed
qed

text \<open>
  Claim C1. For all integers \<open>current\<close> and \<open>target\<close>: when \<open>target \<le> current\<close> the
  reach probability is exactly 1; otherwise, when every level from \<open>current\<close> to
  \<open>target - 1\<close> has a rule, it is the product of the success rates of these levels (the
  program's product: binary64 multiplications from 1 in ascending order of the level); and
  when some level of that range has no rule, it is 0.
\<close>

theorem reachTargetChance_cases:
  "calculateReachTargetChance current target =
     (if target \<le> current then 1
      else if \<forall>l\<in>set [current..target - 1]. ENHANCEMENT_RULES l \<noteq> None
           then foldl fmul 1 (map rateOf [current..target - 1])
           else 0)"
  by (simp add: calculateReachTargetChance_def reachLoop_spec)

theorem reachTargetChance_cases_witness:
  "(3::int) \<le> 5 \<and> calculateReachTargetChance 5 3 = 1
   \<and> \<not> (9::int) \<le> 7 \<and> ENHANCEMENT_RULES 7 \<noteq> None \<and> ENHANCEMENT_RULES 8 \<noteq> None
   \<and> calculateReachTargetChance 7 9 = foldl fmul 1 (map rateOf [7..9 - 1])
   \<and> \<not> (17::int) \<le> 14 \<and> ENHANCEMENT_RULES 16 = None
   \<and> calculateReachTargetChance 14 17 = 0"
proof -
  have r: "ENHANCEMENT_RULES 7 \<noteq> None" "ENHANCEMENT_RULES 8 \<noteq> None"
    "ENHANCEMENT_RULES 16 = None"
    by (simp_all add: rules_defined_iff)
  have "[7..9 - 1] = [7, 8::int]"
    by (simp add: upto_rec1)
  with r have a: "\<forall>l\<in>set [7..9 - 1]. ENHANCEMENT_RULES l \<noteq> None"
    by simp
  from r have b: "\<not> (\<forall>l\<in>set [14..17 - 1]. ENHANCEMENT_RULES l \<noteq> None)"
    by (auto intro: bexI [of _ 16])
  have n: "(3::int) \<le> 5" "\<not> (9::int) \<le> 7" "\<not> (17::int) \<le> 14"
    by simp_all
  have c: "calculateReachTargetChance 5 3 = 1"
    by (simp only: reachTargetChance_cases [of 5 3] n if_True)
  have d: "calculateReachTargetChance 7 9 = foldl fmul 1 (map rateOf [7..9 - 1])"
    by (simp only: reachTargetChance_cases [of 7 9] n if_False if_P [OF a])
  have e: "calculateReachTargetChance 14 17 = 0"
    by (simp only: reachTargetChance_cases [of 14 17] n if_False if_not_P [OF b])
  from n r c d e show ?thesis by blast
qed

text \<open>
  Claim C9, as stated: the reach probability from level 7 to level 9 is exactly 0.18. The
  program multiplies binary64 values, and neither the number 0.18 nor the binary64 value of
  the literal \<open>0.18\<close> is what it returns.
\<close>

theorem reachTargetChance_7_9_not_exact:
  "calculateReachTargetChance 7 9 \<noteq> fl 0.18 \<and> calculateReachTargetChance 7 9 \<noteq> 0.18"
  by code_simp

text \<open>
  Claim C9, amended. The reach probability from level 7 to level 9 is the binary64 product
  of the rates of levels 7 and 8, the value \<open>6485183463413515 / 2 ^ 55\<close>
  (printed 0.18000000000000002): one unit in the last place above the binary64 value of
  \<open>0.18\<close>, and less than \<open>1 / 2 ^ 55\<close> away from 0.18.
\<close>

theorem reachTargetChance_7_9_binary64:
  "calculateReachTargetChance 7 9 = fmul (fmul 1 (fl 0.45)) (fl 0.40)
   \<and> calculateReachTargetChance 7 9 = 6485183463413515 / 2 ^ 55
   \<and> calculateReachTargetChance 7 9 = fl 0.18 + 1 / 2 ^ 55
   \<and> \<bar>calculateReachTargetChance 7 9 - 0.18\<bar> < 1 / 2 ^ 55"
  by code_simp

lemma reachLoop_simple_eq: "reachLoop_simple lvl target chance = reachLoop lvl target chance"
proof (induction lvl target chance rule: reachLoop.induct)
  case (1 lvl target chance)
  show ?case
  proof (cases "lvl < target")
    case False
    then show ?thesis
      by (simp add: reachLoop.simps [of lvl] reachLoop_simple.simps [of lvl])
  next
    case True
    show ?thesis
    proof (cases "ENHANCEMENT_RULES lvl")
      case None
      with True show ?thesis
        by (simp add: reachLoop.simps [of lvl] reachLoop_simple.simps [of lvl] rules_eq)
    next
      case (Some rules)
      with True "1.IH" [OF True Some] show ?thesis
        by (simp add: reachLoop.simps [of lvl] reachLoop_simple.simps [of lvl] rules_eq)
    qed
  qed
qed

text \<open>
  Claim C10. The two page components compute the same reach probability: for all integers
  \<open>current\<close> and \<open>target\<close> the function of the component with tiered currencies and the
  function of the simple component return the same value.
\<close>

theorem reachTargetChance_variants_equal:
  "calculateReachTargetChance current target = calculateReachTargetChance_simple current target"
  by (simp add: calculateReachTargetChance_simple_def calculateReachTargetChance_def
      reachLoop_simple_eq)

section \<open>Resolving one attempt\<close>

lemma enhance_Inr:
  assumes "ENHANCEMENT_RULES level = Some rules"
  shows "enhance rnd k level =
     Inr (\<lparr>success = rnd k < successRate rules,
           newLevel = (if rnd k < successRate rules then level + 1
                       else max 1 (level + failurePenalty rules)),
           damageOccurred = rnd (k + 1) < damageRate rules,
           goldSpent = ENHANCE_COST\<rparr>, k + 2)"
  using assms by (simp add: enhance_def Let_def)

lemma enhance_Inl:
  assumes "ENHANCEMENT_RULES level = None"
  shows "enhance rnd k level = Inl (InvalidLevel level)"
  using assms by (simp add: enhance_def)

lemma enhance_total:
  assumes "1 \<le> level" "level \<le> 15"
  shows "\<exists>result. enhance rnd k level = Inr (result, k + 2) \<and> 1 \<le> newLevel result"
proof -
  from assms rules_defined_iff [of level] obtain rules
    where r: "ENHANCEMENT_RULES level = Some rules"
    by auto
  from assms show ?thesis
    by (auto simp: enhance_Inr [OF r])
qed

text \<open>
  Claim C7. \<open>enhance\<close> fails with the invalid-level error exactly when the level is
  outside \<open>[1, 15]\<close>, where no rule exists; for every level in \<open>[1, 15]\<close> and every pair of
  draws it returns an outcome with all four fields set, on the success branch and on the
  failure branch alike.
\<close>

theorem enhance_InvalidLevel_iff:
  "(enhance rnd k level = Inl (InvalidLevel level)) = (level < 1 \<or> 15 < level)
   \<and> ((\<exists>e. enhance rnd k level = Inl e) = (ENHANCEMENT_RULES level = None))
   \<and> (1 \<le> level \<and> level \<le> 15 \<longrightarrow>
        (\<exists>rules. ENHANCEMENT_RULES level = Some rules \<and>
          enhance rnd k level =
            Inr (\<lparr>success = rnd k < successRate rules,
                  newLevel = (if rnd k < successRate rules then level + 1
                              else max 1 (level + failurePenalty rules)),
                  damageOccurred = rnd (k + 1) < damageRate rules,
                  goldSpent = ENHANCE_COST\<rparr>, k + 2)))"
proof (cases "ENHANCEMENT_RULES level")
  case None
  then show ?thesis using rules_defined_iff [of level] by (auto simp: enhance_Inl)
next
  case (Some rules)
  then show ?thesis using rules_defined_iff [of level] by (auto simp: enhance_Inr)
qed

theorem enhance_InvalidLevel_iff_witness:
  "(15::int) < 16 \<and> enhance zeroDraws 0 16 = Inl (InvalidLevel 16)
   \<and> (0::int) < 1 \<and> enhance zeroDraws 0 0 = Inl (InvalidLevel 0)
   \<and> (1::int) \<le> 7 \<and> (7::int) \<le> 15
   \<and> (\<exists>rules. ENHANCEMENT_RULES 7 = Some rules \<and>
          enhance halfDraws 0 7 =
            Inr (\<lparr>success = halfDraws 0 < successRate rules,
                  newLevel = (if halfDraws 0 < successRate rules then 7 + 1
                              else max 1 (7 + failurePenalty rules)),
                  damageOccurred = halfDraws (0 + 1) < damageRate rules,
                  goldSpent = ENHANCE_COST\<rparr>, 0 + 2))"
  using enhance_InvalidLevel_iff [of zeroDraws 0 16] enhance_InvalidLevel_iff [of zeroDraws 0 0]
    enhance_InvalidLevel_iff [of halfDraws 0 7]
  by simp

text \<open>
  Claim C8. For every level in \<open>[1, 6]\<close> and every pair of draws in \<open>[0, 1)\<close> the attempt
  succeeds and no damage occurs: the outcome is the same record whatever the draws are,
  while the draw position still advances by two.
\<close>

theorem enhance_low_level_fixed:
  assumes "1 \<le> level" "level \<le> 6"
    and "0 \<le> rnd k" "rnd k < 1" "0 \<le> rnd (k + 1)" "rnd (k + 1) < 1"
  shows "enhance rnd k level =
     Inr (\<lparr>success = True, newLevel = level + 1, damageOccurred = False,
           goldSpent = ENHANCE_COST\<rparr>, k + 2)"
  using assms by (simp add: enhance_Inr [OF rules_low])

theorem enhance_low_level_fixed_witness:
  "(1::int) \<le> 3 \<and> (3::int) \<le> 6 \<and> 0 \<le> halfDraws 0 \<and> halfDraws 0 < 1
   \<and> 0 \<le> halfDraws (0 + 1) \<and> halfDraws (0 + 1) < 1
   \<and> enhance halfDraws 0 3 =
     Inr (\<lparr>success = True, newLevel = 3 + 1, damageOccurred = False,
           goldSpent = ENHANCE_COST\<rparr>, 0 + 2)"
  using enhance_low_level_fixed [of 3 halfDraws 0] by (simp add: halfDraws_def)

text \<open>
  Claim C2, as stated: for every level in \<open>[1, 15]\<close> and every pair of draws in \<open>[0, 1)\<close>
  the new level is in \<open>[1, 15]\<close>. At level 15 with a first draw of 0 the attempt succeeds
  and the new level is 16: \<open>enhance\<close> does not clamp, its callers do not call it at level
  15 or above.
\<close>

theorem enhance_at_15_gives_16:
  "(1::int) \<le> 15 \<and> (15::int) \<le> 15 \<and> 0 \<le> zeroDraws 0 \<and> zeroDraws 0 < 1
   \<and> 0 \<le> zeroDraws 1 \<and> zeroDraws 1 < 1
   \<and> enhance zeroDraws 0 15 =
     Inr (\<lparr>success = True, newLevel = 16, damageOccurred = True, goldSpent = 5\<rparr>, 2)"
  by code_simp

text \<open>
  Claim C2, amended. For every level in \<open>[1, 15]\<close> and every pair of draws, \<open>enhance\<close>
  returns an outcome whose new level is at least 1 and at most 16; it is at most 15 when
  the level is at most 14; a failure never raises the level and never produces a level
  below 1; a success produces the level plus one.
\<close>

theorem enhance_newLevel_range:
  assumes "1 \<le> level" "level \<le> 15"
  shows "\<exists>result. enhance rnd k level = Inr (result, k + 2)
     \<and> 1 \<le> newLevel result \<and> newLevel result \<le> 16
     \<and> (level \<le> 14 \<longrightarrow> newLevel result \<le> 15)
     \<and> (\<not> success result \<longrightarrow> newLevel result \<le> level)
     \<and> (success result \<longrightarrow> newLevel result = level + 1)"
proof -
  from assms rules_defined_iff [of level] obtain rules
    where r: "ENHANCEMENT_RULES level = Some rules"
    by auto
  from rules_penalty [OF r] assms show ?thesis
    by (auto simp: enhance_Inr [OF r])
qed

theorem enhance_newLevel_range_witness:
  "(1::int) \<le> 15 \<and> (15::int) \<le> 15
   \<and> (\<exists>result. enhance zeroDraws 0 15 = Inr (result, 0 + 2)
     \<and> 1 \<le> newLevel result \<and> newLevel result \<le> 16
     \<and> (\<not> success result \<longrightarrow> newLevel result \<le> 15)
     \<and> (success result \<longrightarrow> newLevel result = 15 + 1))
   \<and> (1::int) \<le> 7 \<and> (7::int) \<le> 14
   \<and> (\<exists>result. enhance halfDraws 0 7 = Inr (result, 0 + 2)
     \<and> 1 \<le> newLevel result \<and> newLevel result \<le> 15
     \<and> (\<not> success result \<longrightarrow> newLevel result \<le> 7)
     \<and> (success result \<longrightarrow> newLevel result = 7 + 1))"
  using enhance_newLevel_range [of 15 zeroDraws 0] enhance_newLevel_range [of 7 halfDraws 0]
  by auto

section \<open>Statistics\<close>


lemma foldl_sum: "foldl (\<lambda>sum attempt. sum + f attempt) (a::int) xs = a + sum_list (map f xs)"
  by (induction xs arbitrary: a) simp_all

lemma tier_jelly: "jellyPerAttempt level = fst (tierTable level)"
  by (simp add: jellyPerAttempt_def tierTable_def)

lemma tier_essence: "essencePerAttempt level = fst (snd (tierTable level))"
  by (simp add: essencePerAttempt_def tierTable_def)

lemma tier_diamond: "diamondPerAttempt level = snd (snd (tierTable level))"
  by (simp add: diamondPerAttempt_def tierTable_def)


text \<open>
  On the log that records \<open>2 ^ 53\<close> and then 1 the second component returns \<open>2 ^ 53\<close>: the
  last addition is rounded.
\<close>

lemma totalGoldSpent_simple_rounds:
  "totalGoldSpent_simple (calculateStats_simple largeLog) = 2 ^ 53
   \<and> sum_list (map goldSpent_simple largeLog) = 2 ^ 53 + 1"
  by code_simp




text \<open>
  Claim C4. For every log, the three secondary totals of the component with tiered
  currencies are the sums, over all entries, of the amounts that the six-row table gives for
  the entry's own \<open>newLevel\<close>.
\<close>

theorem secondary_costs_by_tier:
  "jellyCost (calculateStats attempts)
     = sum_list (map (\<lambda>attempt. fst (tierTable (newLevel attempt))) attempts)
   \<and> essenceCost (calculateStats attempts)
     = sum_list (map (\<lambda>attempt. fst (snd (tierTable (newLevel attempt)))) attempts)
   \<and> diamondCost (calculateStats attempts)
     = sum_list (map (\<lambda>attempt. snd (snd (tierTable (newLevel attempt)))) attempts)"
  by (simp add: calculateStats_def Let_def foldl_sum tier_jelly tier_essence tier_diamond)

text \<open>
  Claim C6. For every log, \<open>totalAttempts\<close> is the length of the log; on a log that is not
  empty the success rate is the number of successful entries divided by the number of
  entries (the program's division) and \<open>finalLevel\<close> is the \<open>newLevel\<close> of the last entry;
  on the empty log every field is 0 except \<open>finalLevel\<close>, which is 1.
\<close>

theorem calculateStats_summary:
  "totalAttempts (calculateStats attempts) = length attempts
   \<and> (attempts \<noteq> [] \<longrightarrow>
        successRate_stats (calculateStats attempts)
          = fdiv (of_nat (length (filter success attempts))) (of_nat (length attempts))
        \<and> finalLevel (calculateStats attempts) = newLevel (last attempts))
   \<and> calculateStats [] =
        \<lparr>totalAttempts = 0, totalGoldSpent = 0, successRate_stats = 0, jellyCost = 0,
         essenceCost = 0, diamondCost = 0, finalLevel = 1\<rparr>"
  by (simp add: calculateStats_def Let_def last_conv_nth)

theorem calculateStats_summary_witness:
  "[entry7, entry7\<lparr>success := False, newLevel := 1\<rparr>] \<noteq> []
   \<and> totalAttempts (calculateStats [entry7, entry7\<lparr>success := False, newLevel := 1\<rparr>]) = 2
   \<and> successRate_stats (calculateStats [entry7, entry7\<lparr>success := False, newLevel := 1\<rparr>])
       = fdiv 1 2
   \<and> finalLevel (calculateStats [entry7, entry7\<lparr>success := False, newLevel := 1\<rparr>]) = 1"
  using calculateStats_summary [of "[entry7, entry7\<lparr>success := False, newLevel := 1\<rparr>]"]
  by (simp add: entry7_def)

section \<open>Batch of attempts\<close>

lemma runningLevel_Cons: "runningLevel start (out # outs) = runningLevel (newLevel out) outs"
  by (simp add: runningLevel_def)

lemma batchLoop_run:
  assumes "1 \<le> tempLevel"
  shows "\<exists>outs. batchLoop rnd k i totalInput target tempLevel acc
            = Inr (acc @ outs, runningLevel tempLevel outs, k + 2 * length outs)
         \<and> length outs \<le> totalInput - i
         \<and> resolvedBelow rnd k target tempLevel outs
         \<and> (length outs = totalInput - i \<or> target \<le> runningLevel tempLevel outs
             \<or> 15 \<le> runningLevel tempLevel outs)"
  using assms
proof (induction rnd k i totalInput target tempLevel acc rule: batchLoop.induct)
  case (1 rnd k i totalInput target tempLevel newAttempts)
  show ?case
  proof (cases "i < totalInput \<and> \<not> (target \<le> tempLevel \<or> 15 \<le> tempLevel)")
    case False
    then have "batchLoop rnd k i totalInput target tempLevel newAttempts
        = Inr (newAttempts, tempLevel, k)"
      by (auto simp: batchLoop.simps [of rnd k i])
    with False show ?thesis
      by (intro exI [of _ "[]"]) (auto simp: runningLevel_def)
  next
    case True
    with "1.prems" enhance_total [of tempLevel rnd k] obtain result
      where e: "enhance rnd k tempLevel = Inr (result, k + 2)" and ge: "1 \<le> newLevel result"
      by auto
    from True have lt: "i < totalInput" and ns: "\<not> (target \<le> tempLevel \<or> 15 \<le> tempLevel)"
      by auto
    from "1.IH" [OF lt ns e refl ge] obtain outs where
      run: "batchLoop rnd (k + 2) (i + 1) totalInput target (newLevel result)
              (newAttempts @ [result])
            = Inr ((newAttempts @ [result]) @ outs, runningLevel (newLevel result) outs,
                   k + 2 + 2 * length outs)"
      and len: "length outs \<le> totalInput - (i + 1)"
      and res: "resolvedBelow rnd (k + 2) target (newLevel result) outs"
      and stop: "length outs = totalInput - (i + 1)
                 \<or> target \<le> runningLevel (newLevel result) outs
                 \<or> 15 \<le> runningLevel (newLevel result) outs"
      by blast
    have "batchLoop rnd k i totalInput target tempLevel newAttempts
        = batchLoop rnd (k + 2) (i + 1) totalInput target (newLevel result)
            (newAttempts @ [result])"
      using lt ns e by (simp add: batchLoop.simps [of rnd k i])
    with run have "batchLoop rnd k i totalInput target tempLevel newAttempts
        = Inr (newAttempts @ (result # outs), runningLevel tempLevel (result # outs),
               k + 2 * length (result # outs))"
      by (simp add: runningLevel_Cons)
    moreover have "length (result # outs) \<le> totalInput - i"
      using len lt by simp
    moreover have "resolvedBelow rnd k target tempLevel (result # outs)"
      using res e ns by simp
    moreover have "length (result # outs) = totalInput - i
        \<or> target \<le> runningLevel tempLevel (result # outs)
        \<or> 15 \<le> runningLevel tempLevel (result # outs)"
      using stop lt by (auto simp: runningLevel_Cons)
    ultimately show ?thesis by blast
  qed
qed

text \<open>
  Claim C5. From a session whose level is at least 1 (the level of a session never is
  below 1) and that is not auto-enhancing, the batch returns; it appends at most
  \<open>totalAttemptsInput\<close> outcomes to the log; every appended outcome is resolved by
  \<open>enhance\<close> at the running level, and that level is below the target and below 15, so no
  outcome is appended when the start level already is at the target or at 15; the draw
  position advances by two for each appended outcome and no further, so no attempt is
  resolved beyond the appended ones; the batch
  stops only when the count is reached, or the running level has reached the target, or
  it has reached 15; and the level it stores is the running level after the last appended
  outcome (the start level when none is appended).
\<close>

theorem handleSetTotalAttempts_batch:
  assumes "\<not> isAutoEnhancing s" and "1 \<le> currentLevel s"
  shows "\<exists>s' k' outs. handleSetTotalAttempts rnd k s = Inr (s', k')
     \<and> k' = k + 2 * length outs
     \<and> attemptLog s' = attemptLog s @ outs
     \<and> length outs \<le> totalAttemptsInput s
     \<and> resolvedBelow rnd k (targetLevel s) (currentLevel s) outs
     \<and> (targetLevel s \<le> currentLevel s \<or> 15 \<le> currentLevel s \<longrightarrow> outs = [])
     \<and> (length outs = totalAttemptsInput s
         \<or> targetLevel s \<le> runningLevel (currentLevel s) outs
         \<or> 15 \<le> runningLevel (currentLevel s) outs)
     \<and> currentLevel s' = runningLevel (currentLevel s) outs"
proof -
  from batchLoop_run [OF assms(2), of rnd k 0 "totalAttemptsInput s" "targetLevel s"
      "attemptLog s"]
  obtain outs where
    run: "batchLoop rnd k 0 (totalAttemptsInput s) (targetLevel s) (currentLevel s)
            (attemptLog s)
          = Inr (attemptLog s @ outs, runningLevel (currentLevel s) outs, k + 2 * length outs)"
    and len: "length outs \<le> totalAttemptsInput s"
    and res: "resolvedBelow rnd k (targetLevel s) (currentLevel s) outs"
    and stop: "length outs = totalAttemptsInput s
         \<or> targetLevel s \<le> runningLevel (currentLevel s) outs
         \<or> 15 \<le> runningLevel (currentLevel s) outs"
    by auto
  have none: "targetLevel s \<le> currentLevel s \<or> 15 \<le> currentLevel s \<longrightarrow> outs = []"
    using res by (cases outs) auto
  from run assms(1) have
    "handleSetTotalAttempts rnd k s =
       Inr (s\<lparr>attemptLog := attemptLog s @ outs, stats := calculateStats (attemptLog s @ outs),
              currentLevel := runningLevel (currentLevel s) outs\<rparr>, k + 2 * length outs)"
    by (simp add: handleSetTotalAttempts_def)
  with len res none stop show ?thesis
    by (intro exI [of _ "s\<lparr>attemptLog := attemptLog s @ outs,
          stats := calculateStats (attemptLog s @ outs),
          currentLevel := runningLevel (currentLevel s) outs\<rparr>"]
        exI [of _ "k + 2 * length outs"] exI [of _ outs]) simp
qed

theorem handleSetTotalAttempts_batch_witness:
  "\<not> isAutoEnhancing session0 \<and> 1 \<le> currentLevel session0 \<and>
   (\<exists>s' k' outs. handleSetTotalAttempts zeroDraws 0 session0 = Inr (s', k')
     \<and> k' = 0 + 2 * length outs
     \<and> attemptLog s' = attemptLog session0 @ outs
     \<and> length outs \<le> totalAttemptsInput session0
     \<and> resolvedBelow zeroDraws 0 (targetLevel session0) (currentLevel session0) outs
     \<and> (length outs = totalAttemptsInput session0
         \<or> targetLevel session0 \<le> runningLevel (currentLevel session0) outs
         \<or> 15 \<le> runningLevel (currentLevel session0) outs)
     \<and> currentLevel s' = runningLevel (currentLevel session0) outs)"
proof -
  have h: "\<not> isAutoEnhancing session0" "1 \<le> currentLevel session0"
    by (simp_all add: session0_def)
  from handleSetTotalAttempts_batch [OF h, of zeroDraws 0] h show ?thesis by blast
qed

end
